theory Spec2Isabelle
  imports Complex_Main "HOL-Library.Sublist"
begin

section \<open>Strings and the regular expressions of validators.py\<close>

text \<open>
  Python strings are modelled as \<open>string\<close>; one \<open>char\<close> stands for one code point in
  the range 0 to 255, so \<open>length\<close> is Python's \<open>len\<close> on such strings.
\<close>

definition code :: "char \<Rightarrow> nat" where
  "code c = of_char c"

definition newline :: char where
  "newline = CHR 0x0A"

text \<open>
  Whitespace as \<open>str.strip()\<close> and the class \<open>\s\<close> of \<open>re\<close> see it on \<open>str\<close>: tab, line
  feed, vertical tab, form feed, carriage return, the separators 0x1C to 0x1F, space, and
  in the Latin-1 range NEL (0x85) and the no-break space (0xA0).
\<close>

definition is_space :: "char \<Rightarrow> bool" where
  "is_space c = (code c \<in> {9, 10, 11, 12, 13, 28, 29, 30, 31, 32, 133, 160})"

definition is_upper :: "char \<Rightarrow> bool" where
  "is_upper c = (65 \<le> code c \<and> code c \<le> 90)"

definition is_lower :: "char \<Rightarrow> bool" where
  "is_lower c = (97 \<le> code c \<and> code c \<le> 122)"

definition is_digit :: "char \<Rightarrow> bool" where
  "is_digit c = (48 \<le> code c \<and> code c \<le> 57)"

text \<open>\<open>s.strip()\<close>: whitespace removed at both ends.\<close>

definition strip :: "string \<Rightarrow> string" where
  "strip s = rev (dropWhile is_space (rev (dropWhile is_space s)))"

text \<open>
  \<open>re.sub(r'\s+', ' ', s)\<close>: scanning from the left, every maximal run of whitespace is
  replaced by one space.
\<close>

function collapse_ws :: "string \<Rightarrow> string" where
  "collapse_ws [] = []"
| "collapse_ws (c # cs) =
     (if is_space c then CHR '' '' # collapse_ws (dropWhile is_space cs)
      else c # collapse_ws cs)"
  by pat_completeness auto
termination
  by (relation "measure length") (auto simp: less_Suc_eq_le length_dropWhile_le)

text \<open>
  The character class \<open>[A-Za-z\s,\.'-]\<close>, which the name pattern of the schema requires
  and whose complement \<open>clean_professor_name\<close> deletes.
\<close>

definition name_char :: "char \<Rightarrow> bool" where
  "name_char c =
     (is_upper c \<or> is_lower c \<or> is_space c
      \<or> c = CHR '','' \<or> c = CHR ''.'' \<or> c = CHR 0x27 \<or> c = CHR ''-'')"

text \<open>The character class \<open>[a-f0-9-]\<close> of the link pattern.\<close>

definition token_char :: "char \<Rightarrow> bool" where
  "token_char c = ((97 \<le> code c \<and> code c \<le> 102) \<or> is_digit c \<or> c = CHR ''-'')"

text \<open>
  A pattern \<open>^prefix[class]+$\<close>, as \<open>re.match\<close> and \<open>re.search\<close> decide it. Without
  \<open>re.MULTILINE\<close> the anchor \<open>^\<close> is the start of the string, and \<open>$\<close> is the end of the
  string or the position just before a newline that ends the string.
\<close>

definition class_plus :: "(char \<Rightarrow> bool) \<Rightarrow> string \<Rightarrow> bool" where
  "class_plus cls s = (s \<noteq> [] \<and> list_all cls s)"

definition re_anchored :: "string \<Rightarrow> (char \<Rightarrow> bool) \<Rightarrow> string \<Rightarrow> bool" where
  "re_anchored pre cls s =
     (take (length pre) s = pre
      \<and> (let rest = drop (length pre) s
         in class_plus cls rest
            \<or> (rest \<noteq> [] \<and> last rest = newline \<and> class_plus cls (butlast rest))))"

definition link_prefix :: string where
  "link_prefix = ''https://polyratings.dev/professor/''"

text \<open>\<open>^https://polyratings\.dev/professor/[a-f0-9-]+$\<close>\<close>

definition link_pattern :: "string \<Rightarrow> bool" where
  "link_pattern s = re_anchored link_prefix token_char s"

text \<open>\<open>^[A-Za-z\s,\.'-]+$\<close>\<close>

definition name_pattern :: "string \<Rightarrow> bool" where
  "name_pattern s = re_anchored [] name_char s"

section \<open>validators.py: clean_professor_name and validate_professor_link\<close>

text \<open>
  \<^verbatim>\<open>
  def clean_professor_name(name: str) -> str:
      if not name:
          return ""
      name = re.sub(r'\s+', ' ', name.strip())
      name = re.sub(r'[^A-Za-z\s,\.\'-]', '', name)
      return name
  \<close>
  The Extractor passes \<open>None\<close> for a card without heading, which \<open>not name\<close> catches as
  it does the empty string.
\<close>

definition clean_professor_name :: "string option \<Rightarrow> string" where
  "clean_professor_name name =
     (case name of
        None \<Rightarrow> []
      | Some n \<Rightarrow> if n = [] then [] else filter name_char (collapse_ws (strip n)))"

text \<open>
  \<^verbatim>\<open>
  def validate_professor_link(link: str) -> Optional[str]:
      if not link:
          return None
      if re.match(r'^https://polyratings\.dev/professor/[a-f0-9-]+$', link):
          return link
      else:
          return None
  \<close>
\<close>

definition validate_professor_link :: "string \<Rightarrow> string option" where
  "validate_professor_link link =
     (if link = [] then None
      else if link_pattern link then Some link
      else None)"

section \<open>Python floats\<close>

text \<open>
  A \<open>float\<close> is an IEEE 754 binary64 value: a finite value, given by the rational it
  denotes, an infinity or NaN. The two zeros are identified, as Python's \<open>==\<close> does.
\<close>

datatype pyfloat = Finite rat | PosInf | NegInf | NaN

definition round_half_even :: "rat \<Rightarrow> int" where
  "round_half_even x =
     (let f = \<lfloor>x\<rfloor>; d = x - of_int f
      in if d < 1 / 2 then f else if 1 / 2 < d then f + 1 else if even f then f else f + 1)"

definition pow2 :: "int \<Rightarrow> rat" where
  "pow2 e = (if 0 \<le> e then 2 ^ nat e else 1 / 2 ^ nat (- e))"

definition pow10 :: "int \<Rightarrow> rat" where
  "pow10 e = (if 0 \<le> e then 10 ^ nat e else 1 / 10 ^ nat (- e))"

text \<open>The binary exponent of a positive rational: the \<open>e\<close> with \<open>2^e \<le> a < 2^(e+1)\<close>.\<close>

function ilog2_ge1 :: "rat \<Rightarrow> int" where
  "ilog2_ge1 a = (if a < 2 then 0 else 1 + ilog2_ge1 (a / 2))"
  by pat_completeness auto
termination
proof (relation "measure (\<lambda>a. nat \<lfloor>a\<rfloor>)")
  show "wf (measure (\<lambda>a::rat. nat \<lfloor>a\<rfloor>))" by simp
next
  fix a :: rat
  assume "\<not> a < 2"
  then have a: "2 \<le> a" by simp
  have "rat_of_int \<lfloor>a / 2\<rfloor> \<le> a / 2"
    by (rule of_int_floor_le)
  moreover have "a - 1 < rat_of_int \<lfloor>a\<rfloor>"
    by linarith
  ultimately have "rat_of_int \<lfloor>a / 2\<rfloor> < rat_of_int \<lfloor>a\<rfloor>"
    using a by linarith
  then have "\<lfloor>a / 2\<rfloor> < \<lfloor>a\<rfloor>"
    by (simp only: of_int_less_iff)
  moreover have "0 < \<lfloor>a\<rfloor>"
    using a by (simp add: less_floor_iff)
  ultimately show "(a / 2, a) \<in> measure (\<lambda>a. nat \<lfloor>a\<rfloor>)"
    by simp
qed

declare ilog2_ge1.simps [simp del]

definition ilog2 :: "rat \<Rightarrow> int" where
  "ilog2 a =
     (if 1 \<le> a then ilog2_ge1 a
      else let k = ilog2_ge1 (1 / a) in if pow2 (- k) \<le> a then - k else - k - 1)"

text \<open>
  The binary64 value nearest to a rational, ties to the even significand: 53 significant
  bits, exponents down to \<open>-1022\<close> (below that the spacing stays \<open>2^-1074\<close>), and an
  infinity when the rounded magnitude reaches \<open>2^1024\<close>.
\<close>

definition to_double :: "rat \<Rightarrow> pyfloat" where
  "to_double q =
     (if q = 0 then Finite 0
      else let a = \<bar>q\<bar>;
               e = max (ilog2 a) (- 1022);
               ulp = pow2 (e - 52);
               v = of_int (round_half_even (a / ulp)) * ulp
           in if pow2 1024 \<le> v then (if 0 < q then PosInf else NegInf)
              else Finite (if 0 < q then v else - v))"

text \<open>\<open>x <= y\<close> and \<open>x < y\<close> on floats: every comparison with NaN is false.\<close>

fun float_le :: "pyfloat \<Rightarrow> pyfloat \<Rightarrow> bool" where
  "float_le NaN y = False"
| "float_le x NaN = False"
| "float_le NegInf y = True"
| "float_le x PosInf = True"
| "float_le PosInf y = False"
| "float_le x NegInf = False"
| "float_le (Finite a) (Finite b) = (a \<le> b)"

fun float_lt :: "pyfloat \<Rightarrow> pyfloat \<Rightarrow> bool" where
  "float_lt NaN y = False"
| "float_lt x NaN = False"
| "float_lt PosInf y = False"
| "float_lt x NegInf = False"
| "float_lt NegInf y = True"
| "float_lt x PosInf = True"
| "float_lt (Finite a) (Finite b) = (a < b)"

text \<open>
  \<open>round(x, ndigits)\<close> for a float and \<open>ndigits \<ge> 0\<close>: the exact value is rounded to
  \<open>ndigits\<close> decimals, ties to even, and the decimal is converted back to a float;
  infinities and NaN round to themselves.
\<close>

definition py_round :: "pyfloat \<Rightarrow> nat \<Rightarrow> pyfloat" where
  "py_round x ndigits =
     (case x of
        Finite v \<Rightarrow> to_double (of_int (round_half_even (v * 10 ^ ndigits)) / 10 ^ ndigits)
      | _ \<Rightarrow> x)"

section \<open>Python's float() on a string\<close>

text \<open>
  \<open>float(s)\<close> accepts an optional sign followed by \<open>inf\<close>, \<open>infinity\<close> or \<open>nan\<close> in any
  letter case, or by a decimal number with at least one digit, an optional point and an
  optional exponent. Whitespace around the literal is ignored, single underscores may
  separate digits, and anything else raises \<open>ValueError\<close>, modelled as \<open>None\<close>.
\<close>

text \<open>Whitespace skipped around a float literal (C \<open>isspace\<close>, and NEL and no-break space).\<close>

definition float_space :: "char \<Rightarrow> bool" where
  "float_space c = (code c \<in> {9, 10, 11, 12, 13, 32, 133, 160})"

definition float_strip :: "string \<Rightarrow> string" where
  "float_strip s = rev (dropWhile float_space (rev (dropWhile float_space s)))"

text \<open>An underscore must stand between two digits; the first argument is the previous character.\<close>

fun underscores_ok :: "char \<Rightarrow> string \<Rightarrow> bool" where
  "underscores_ok prev [] = (prev \<noteq> CHR ''_'')"
| "underscores_ok prev (c # cs) =
     ((if c = CHR ''_'' then is_digit prev else (prev \<noteq> CHR ''_'' \<or> is_digit c))
      \<and> underscores_ok c cs)"

definition to_lower :: "char \<Rightarrow> char" where
  "to_lower c = (if is_upper c then char_of (code c + 32) else c)"

definition digits_value :: "string \<Rightarrow> nat" where
  "digits_value ds = foldl (\<lambda>n c. 10 * n + (code c - 48)) 0 ds"

text \<open>An optional sign: whether it is a minus, and the rest.\<close>

fun split_sign :: "string \<Rightarrow> bool \<times> string" where
  "split_sign [] = (False, [])"
| "split_sign (c # cs) =
     (if c = CHR ''-'' then (True, cs) else if c = CHR ''+'' then (False, cs)
      else (False, c # cs))"

text \<open>The exponent part: empty, or \<open>e\<close> or \<open>E\<close>, an optional sign and at least one digit.\<close>

definition parse_exponent :: "string \<Rightarrow> int option" where
  "parse_exponent s =
     (case s of
        [] \<Rightarrow> Some 0
      | c # cs \<Rightarrow>
          if c = CHR ''e'' \<or> c = CHR ''E''
          then (case split_sign cs of
                  (neg, ds) \<Rightarrow>
                    if ds \<noteq> [] \<and> list_all is_digit ds
                    then Some (if neg then - int (digits_value ds) else int (digits_value ds))
                    else None)
          else None)"

definition parse_float_body :: "string \<Rightarrow> pyfloat option" where
  "parse_float_body s =
     (case split_sign s of
        (neg, r) \<Rightarrow>
          if map to_lower r = ''inf'' \<or> map to_lower r = ''infinity''
          then Some (if neg then NegInf else PosInf)
          else if map to_lower r = ''nan'' then Some NaN
          else
            let d1 = takeWhile is_digit r;
                r1 = dropWhile is_digit r;
                pointed = (r1 \<noteq> [] \<and> hd r1 = CHR ''.'');
                d2 = (if pointed then takeWhile is_digit (tl r1) else []);
                r2 = (if pointed then dropWhile is_digit (tl r1) else r1)
            in if d1 @ d2 = [] then None
               else (case parse_exponent r2 of
                       None \<Rightarrow> None
                     | Some e \<Rightarrow>
                         Some (to_double ((if neg then - 1 else 1)
                                 * of_nat (digits_value (d1 @ d2))
                                 * pow10 (e - int (length d2))))))"

definition py_float :: "string \<Rightarrow> pyfloat option" where
  "py_float text =
     (if \<not> underscores_ok (CHR 0x00) text then None
      else parse_float_body (float_strip (filter (\<lambda>c. c \<noteq> CHR ''_'') text)))"

section \<open>config.py: the validation settings\<close>

definition MIN_RATING :: pyfloat where
  "MIN_RATING = Finite 0"

definition MAX_RATING :: pyfloat where
  "MAX_RATING = Finite 4"

definition MIN_NAME_LENGTH :: nat where
  "MIN_NAME_LENGTH = 2"

definition MAX_NAME_LENGTH :: nat where
  "MAX_NAME_LENGTH = 100"

section \<open>validators.py: validate_rating\<close>

text \<open>
  The rating argument is untyped in the source. The Extractor passes the rating text or
  \<open>None\<close>, the tests pass floats as well; other argument types are not modelled.
\<close>

datatype rating_value = RNone | RText string | RFloat pyfloat

text \<open>\<open>float(rating)\<close>; \<open>TypeError\<close> on \<open>None\<close> and \<open>ValueError\<close> on a bad text are \<open>None\<close>.\<close>

fun float_of :: "rating_value \<Rightarrow> pyfloat option" where
  "float_of RNone = None"
| "float_of (RText s) = py_float s"
| "float_of (RFloat x) = Some x"

text \<open>
  \<^verbatim>\<open>
  def validate_rating(rating: Any) -> Optional[float]:
      try:
          rating_float = float(rating)
          if ScraperConfig.MIN_RATING <= rating_float <= ScraperConfig.MAX_RATING:
              return round(rating_float, 2)
          else:
              return None
      except (ValueError, TypeError):
          return None
  \<close>
\<close>

definition validate_rating :: "rating_value \<Rightarrow> pyfloat option" where
  "validate_rating rating =
     (case float_of rating of
        None \<Rightarrow> None
      | Some rating_float \<Rightarrow>
          if float_le MIN_RATING rating_float \<and> float_le rating_float MAX_RATING
          then Some (py_round rating_float 2)
          else None)"

section \<open>validators.py: the schema and create_professor_entry\<close>

text \<open>
  A professor entry is the dictionary \<open>{"name": ..., "rating": ..., "link": ...}\<close>. The
  record fixes the three keys and their types, so the schema's \<open>type\<close>, \<open>required\<close> and
  \<open>additionalProperties\<close> constraints hold by construction; the \<open>format\<close> keyword is not
  checked by \<open>jsonschema.validate\<close> without a format checker.
\<close>

record professor =
  prof_name :: string
  prof_rating :: pyfloat
  prof_link :: string

text \<open>
  \<open>validate(instance=professor, schema=PROFESSOR_SCHEMA)\<close>: \<open>minLength\<close>, \<open>maxLength\<close> and
  \<open>pattern\<close> on the name, \<open>minimum\<close> and \<open>maximum\<close> on the rating (violated when
  \<open>rating < minimum\<close> or \<open>rating > maximum\<close>), \<open>pattern\<close> on the link.
\<close>

definition validate_professor_data :: "professor \<Rightarrow> bool" where
  "validate_professor_data professor =
     (MIN_NAME_LENGTH \<le> length (prof_name professor)
      \<and> length (prof_name professor) \<le> MAX_NAME_LENGTH
      \<and> name_pattern (prof_name professor)
      \<and> \<not> float_lt (prof_rating professor) MIN_RATING
      \<and> \<not> float_lt MAX_RATING (prof_rating professor)
      \<and> link_pattern (prof_link professor))"

text \<open>\<open>PROFESSORS_LIST_SCHEMA\<close>: every item satisfies the schema, and \<open>minItems\<close> is 1.\<close>

definition validate_professors_list :: "professor list \<Rightarrow> bool" where
  "validate_professors_list professors =
     (professors \<noteq> [] \<and> list_all validate_professor_data professors)"

text \<open>
  \<open>create_professor_entry\<close> returns \<open>None\<close> at four places. The model names the place, so
  that a claim about one step can be stated; the function itself forgets it.
\<close>

datatype rejection = InvalidName | InvalidRating | InvalidLink | FinalValidation

definition create_professor_entry_steps ::
  "string option \<Rightarrow> rating_value \<Rightarrow> string \<Rightarrow> rejection + professor" where
  "create_professor_entry_steps name rating link =
     (let clean_name = clean_professor_name name
      in if clean_name = [] then Inl InvalidName
         else (case validate_rating rating of
                 None \<Rightarrow> Inl InvalidRating
               | Some valid_rating \<Rightarrow>
                   (case validate_professor_link link of
                      None \<Rightarrow> Inl InvalidLink
                    | Some valid_link \<Rightarrow>
                        let professor_entry =
                              \<lparr>prof_name = clean_name, prof_rating = valid_rating,
                               prof_link = valid_link\<rparr>
                        in if validate_professor_data professor_entry
                           then Inr professor_entry
                           else Inl FinalValidation)))"

definition create_professor_entry ::
  "string option \<Rightarrow> rating_value \<Rightarrow> string \<Rightarrow> professor option" where
  "create_professor_entry name rating link =
     (case create_professor_entry_steps name rating link of
        Inl _ \<Rightarrow> None
      | Inr professor_entry \<Rightarrow> Some professor_entry)"

section \<open>validators.py: the JSON artifact\<close>

text \<open>
  \<open>json.dump\<close> and \<open>json.load\<close> are library code; they are modelled by the document
  they write and read. A file holds either a complete document, the list of professor
  entries that \<open>json.load\<close> returns for it, or the text a failed write left behind, which
  \<open>json.load\<close> refuses: \<open>open(path, 'w')\<close> empties the file before anything is written, and
  every proper prefix of the text of a JSON array is not JSON.
\<close>

datatype file_content = Document "professor list" | Torn

type_synonym filesystem = "string \<Rightarrow> file_content option"

text \<open>
  What the operating system does with one attempt to write a file: the write succeeds,
  \<open>open\<close> raises before the file is touched, or an error is raised after \<open>open\<close>
  succeeded and before the document is complete.
\<close>

datatype write_outcome = WriteOk | OpenFails | WriteFails

text \<open>
  \<^verbatim>\<open>
  def save_professors_json(professors, output_path) -> bool:
      try:
          if not validate_professors_list(professors):
              return False
          with open(output_path, 'w', encoding='utf-8') as f:
              json.dump(professors, f, indent=2, ensure_ascii=False)
          return True
      except Exception as e:
          return False
  \<close>
  The result is the returned flag and the file system afterwards.
\<close>

definition save_professors_json ::
  "write_outcome \<Rightarrow> professor list \<Rightarrow> string \<Rightarrow> filesystem \<Rightarrow> bool \<times> filesystem" where
  "save_professors_json io professors output_path fs =
     (if \<not> validate_professors_list professors then (False, fs)
      else (case io of
              OpenFails \<Rightarrow> (False, fs)
            | WriteFails \<Rightarrow> (False, fs(output_path \<mapsto> Torn))
            | WriteOk \<Rightarrow> (True, fs(output_path \<mapsto> Document professors))))"

text \<open>
  \<^verbatim>\<open>
  def load_professors_json(input_path) -> Optional[List[Dict[str, Any]]]:
      try:
          with open(input_path, 'r', encoding='utf-8') as f:
              professors = json.load(f)
          if validate_professors_list(professors):
              return professors
          else:
              return None
      except Exception as e:
          return None
  \<close>
  A missing file and a file that is not JSON raise, which the handler turns into \<open>None\<close>.
\<close>

definition load_professors_json :: "string \<Rightarrow> filesystem \<Rightarrow> professor list option" where
  "load_professors_json input_path fs =
     (case fs input_path of
        None \<Rightarrow> None
      | Some Torn \<Rightarrow> None
      | Some (Document professors) \<Rightarrow>
          if validate_professors_list professors then Some professors else None)"

section \<open>Candidate records\<close>

text \<open>
  The Extractor yields tuples \<open>(name, rating, link)\<close>. The name and the rating text are
  \<open>None\<close> when the card has no heading or no rating container, so both are options; the
  link is always a string.
\<close>

type_synonym candidate = "string option \<times> string option \<times> string"

definition cand_link :: "candidate \<Rightarrow> string" where
  "cand_link p = snd (snd p)"

section \<open>scraper.py: deduplicate_professors\<close>

text \<open>
  \<^verbatim>\<open>
  def deduplicate_professors(professors):
      seen = set()
      unique = []
      for name, rating, link in professors:
          if link not in seen:
              seen.add(link)
              unique.append((name, rating, link))
      return unique
  \<close>
  The loop is a recursion over the input that threads \<open>seen\<close> and \<open>unique\<close>.
\<close>

fun dedup_loop :: "candidate list \<Rightarrow> string set \<Rightarrow> candidate list \<Rightarrow> candidate list" where
  "dedup_loop [] seen unique = unique"
| "dedup_loop ((name, rating, link) # rest) seen unique =
     (if link \<notin> seen
      then dedup_loop rest (insert link seen) (unique @ [(name, rating, link)])
      else dedup_loop rest seen unique)"

definition deduplicate_professors :: "candidate list \<Rightarrow> candidate list" where
  "deduplicate_professors professors = dedup_loop professors {} []"

section \<open>scraper.py: extract_professors_from_dom\<close>





section \<open>scraper.py: fine_grained_scroll_and_collect\<close>






section \<open>scraper.py: main\<close>

text \<open>The path of the artifact, relative to the directory of the module.\<close>

definition OUTPUT_PATH :: string where
  "OUTPUT_PATH = ''data/professors.json''"

text \<open>The rating of a candidate as the argument of \<open>create_professor_entry\<close>.\<close>

fun rating_arg :: "string option \<Rightarrow> rating_value" where
  "rating_arg None = RNone"
| "rating_arg (Some text) = RText text"

text \<open>
  \<^verbatim>\<open>
  professors = []
  for name, rating, link in professors_raw:
      entry = create_professor_entry(name, rating, link)
      if entry:
          professors.append(entry)
  \<close>
\<close>

fun validate_all :: "candidate list \<Rightarrow> professor list" where
  "validate_all [] = []"
| "validate_all ((name, rating, link) # rest) =
     (case create_professor_entry name (rating_arg rating) link of
        None \<Rightarrow> validate_all rest
      | Some entry \<Rightarrow> entry # validate_all rest)"

text \<open>
  \<open>main\<close> after the collector has returned and the browser is closed:
  \<open>professors_raw\<close> is the list the collector returned.
  \<^verbatim>\<open>
  professors_raw = deduplicate_professors(professors_raw)
  professors = [...]   # the loop above
  if save_professors_json(professors, ScraperConfig.OUTPUT_PATH): ...
  \<close>
\<close>

definition main :: "write_outcome \<Rightarrow> candidate list \<Rightarrow> filesystem \<Rightarrow> bool \<times> filesystem" where
  "main io professors_raw fs =
     (let deduplicated = deduplicate_professors professors_raw;
          professors = validate_all deduplicated
      in save_professors_json io professors OUTPUT_PATH fs)"

section \<open>utils.py: extract_rating_from_text\<close>

text \<open>
  \<open>re.search(r'(\d+\.?\d*)', text)\<close>: the leftmost match starts at the first digit and
  takes the digits, a point if one follows, and the digits after it.
\<close>

definition search_number :: "string \<Rightarrow> string option" where
  "search_number s =
     (let r = dropWhile (\<lambda>c. \<not> is_digit c) s;
          d1 = takeWhile is_digit r;
          r1 = dropWhile is_digit r
      in if r = [] then None
         else if r1 \<noteq> [] \<and> hd r1 = CHR ''.''
         then Some (d1 @ ''.'' @ takeWhile is_digit (tl r1))
         else Some d1)"

text \<open>
  \<^verbatim>\<open>
  def extract_rating_from_text(rating_text: str) -> Optional[float]:
      if not rating_text:
          return None
      pattern = r'(\d+\.?\d*)'
      match = re.search(pattern, rating_text.strip())
      if match:
          try:
              rating = float(match.group(1))
              if ScraperConfig.MIN_RATING <= rating <= ScraperConfig.MAX_RATING:
                  return round(rating, 2)
          except ValueError:
              pass
      return None
  \<close>
  No function of the repository calls it; \<open>create_professor_entry\<close> calls \<open>validate_rating\<close>.
\<close>

definition extract_rating_from_text :: "string \<Rightarrow> pyfloat option" where
  "extract_rating_from_text rating_text =
     (if rating_text = [] then None
      else case search_number (strip rating_text) of
             None \<Rightarrow> None
           | Some matched \<Rightarrow>
               (case py_float matched of
                  None \<Rightarrow> None
                | Some rating \<Rightarrow>
                    if float_le MIN_RATING rating \<and> float_le rating MAX_RATING
                    then Some (py_round rating 2)
                    else None))"

section \<open>The cleaned name as the specification words it\<close>

text \<open>
  The characters the specification lets a cleaned name keep: letters, space, comma,
  period, apostrophe and hyphen.
\<close>

definition spec_name_char :: "char \<Rightarrow> bool" where
  "spec_name_char c =
     (is_upper c \<or> is_lower c \<or> c = CHR '' '' \<or> c = CHR '','' \<or> c = CHR ''.''
      \<or> c = CHR 0x27 \<or> c = CHR ''-'')"

fun starts_with_space :: "string \<Rightarrow> bool" where
  "starts_with_space [] = False"
| "starts_with_space (c # cs) = (c = CHR '' '')"

fun has_space_run :: "string \<Rightarrow> bool" where
  "has_space_run (a # b # cs) = ((a = CHR '' '' \<and> b = CHR '' '') \<or> has_space_run (b # cs))"
| "has_space_run [a] = False"
| "has_space_run [] = False"

text \<open>
  A cleaned name: whitespace runs collapsed to a single space (no two adjacent spaces),
  the ends trimmed (no space first or last), and no character outside the set.
\<close>

definition spec_cleaned :: "string \<Rightarrow> bool" where
  "spec_cleaned s =
     (list_all spec_name_char s \<and> \<not> starts_with_space s \<and> \<not> starts_with_space (rev s)
      \<and> \<not> has_space_run s)"

section \<open>The characters of a float literal\<close>

text \<open>
  The characters a float literal can be made of: digits, whitespace, signs, the point, the
  underscore, and the letters of \<open>e\<close>, \<open>inf\<close>, \<open>infinity\<close> and \<open>nan\<close> in either case.
\<close>

definition float_literal_char :: "char \<Rightarrow> bool" where
  "float_literal_char c =
     (is_digit c \<or> float_space c \<or> c \<in> set ''+-._'' \<or> to_lower c \<in> set ''aefinty'')"

section \<open>What deduplication keeps\<close>

text \<open>What the loop appends, apart from the accumulator it started with.\<close>

fun first_seen :: "string set \<Rightarrow> candidate list \<Rightarrow> candidate list" where
  "first_seen seen [] = []"
| "first_seen seen (p # rest) =
     (if cand_link p \<notin> seen then p # first_seen (insert (cand_link p) seen) rest
      else first_seen seen rest)"

section \<open>A page on which one card changes between sightings\<close>


section \<open>The invariant of the collector\<close>


section \<open>Name cleaning\<close>

lemma collapse_ws_space:
  "c \<in> set (collapse_ws s) \<Longrightarrow> is_space c \<Longrightarrow> c = CHR '' ''"
proof (induction s rule: collapse_ws.induct)
  case 1
  then show ?case by simp
next
  case (2 d ds)
  then show ?case
    by (cases "is_space d") auto
qed

lemma filter_collapse_ws:
  "filter name_char (collapse_ws s) = filter spec_name_char (collapse_ws s)"
proof (rule filter_cong)
  show "collapse_ws s = collapse_ws s" by simp
next
  fix c
  assume c: "c \<in> set (collapse_ws s)"
  show "name_char c = spec_name_char c"
  proof (cases "is_space c")
    case True
    with c have "c = CHR '' ''" by (rule collapse_ws_space)
    then show ?thesis
      by (simp add: name_char_def spec_name_char_def is_space_def code_def)
  next
    case False
    then have "c \<noteq> CHR '' ''" by (auto simp: is_space_def code_def)
    with False show ?thesis by (simp add: name_char_def spec_name_char_def)
  qed
qed

lemma clean_professor_name_chars:
  "list_all spec_name_char (clean_professor_name name)"
proof (cases name)
  case None
  then show ?thesis by (simp add: clean_professor_name_def)
next
  case (Some n)
  have "list_all spec_name_char (filter spec_name_char (collapse_ws (strip n)))"
    by (simp add: list_all_iff)
  then have "list_all spec_name_char (filter name_char (collapse_ws (strip n)))"
    by (simp only: filter_collapse_ws)
  with Some show ?thesis
    by (simp add: clean_professor_name_def)
qed

lemma rejected_at_name_step:
  "(create_professor_entry_steps name rating link = Inl InvalidName)
   = (clean_professor_name name = [])"
  by (auto simp: create_professor_entry_steps_def Let_def split: option.splits)

section \<open>Link validation\<close>

lemmas link_eval =
  validate_professor_link_def link_pattern_def re_anchored_def class_plus_def
  link_prefix_def token_char_def is_digit_def code_def newline_def

text \<open>
  Claim C9, evaluated on the code. A link whose token is hexadecimal is accepted, and
  \<open>"https://polyratings.dev/professor/invalid"\<close> is rejected; but the same accepted link
  followed by one newline is accepted too, because \<open>$\<close> also matches just before a final
  newline: that string does not match \<open>https://polyratings.dev/professor/<token>\<close> exactly.
\<close>

theorem validate_professor_link_trailing_newline:
  "validate_professor_link ''https://polyratings.dev/professor/12ab-cd''
     = Some ''https://polyratings.dev/professor/12ab-cd''
   \<and> validate_professor_link ''https://polyratings.dev/professor/invalid'' = None
   \<and> validate_professor_link (''https://polyratings.dev/professor/12ab-cd'' @ [newline])
     = Some (''https://polyratings.dev/professor/12ab-cd'' @ [newline])"
  by (simp add: link_eval)

section \<open>Validating a validated record again\<close>

lemmas entry_eval =
  py_float_def parse_float_body_def float_strip_def float_space_def code_def
  is_digit_def to_lower_def is_upper_def is_lower_def parse_exponent_def Let_def
  digits_value_def to_double_def pow10_def validate_rating_def MIN_RATING_def
  MAX_RATING_def py_round_def round_half_even_def create_professor_entry_def
  create_professor_entry_steps_def clean_professor_name_def strip_def is_space_def
  name_char_def validate_professor_link_def link_pattern_def re_anchored_def
  class_plus_def link_prefix_def token_char_def newline_def validate_professor_data_def
  name_pattern_def MIN_NAME_LENGTH_def MAX_NAME_LENGTH_def

text \<open>
  Claim C7, evaluated on the code. The candidate \<open>("John 1 Doe", "0.0", link)\<close> is
  accepted with the name \<open>"John  Doe"\<close>: the digit is deleted after the whitespace was
  collapsed, which leaves two adjacent spaces. Passing the fields of this validated record
  through the Validator again succeeds with the name \<open>"John Doe"\<close>, a different record.
\<close>

theorem create_professor_entry_not_idempotent:
  "create_professor_entry (Some ''John 1 Doe'') (RText ''0.0'')
       ''https://polyratings.dev/professor/12ab-cd''
     = Some \<lparr>prof_name = ''John  Doe'', prof_rating = Finite 0,
             prof_link = ''https://polyratings.dev/professor/12ab-cd''\<rparr>
   \<and> create_professor_entry (Some ''John  Doe'') (RFloat (Finite 0))
       ''https://polyratings.dev/professor/12ab-cd''
     = Some \<lparr>prof_name = ''John Doe'', prof_rating = Finite 0,
             prof_link = ''https://polyratings.dev/professor/12ab-cd''\<rparr>"
  by (simp add: entry_eval)

section \<open>The cleaned name\<close>

text \<open>
  Claim C8, evaluated on the code. \<open>"  John   Doe  "\<close> cleans to \<open>"John Doe"\<close>, a cleaned
  name. But the characters outside the set are deleted after the ends were trimmed and the
  whitespace runs collapsed, so the spaces around a deleted character stay: \<open>"John 1 Doe"\<close>
  cleans to \<open>"John  Doe"\<close>, which holds a run of two spaces, and \<open>"1 John 2"\<close> cleans to
  \<open>" John "\<close>, whose ends are not trimmed. Neither is rejected, and \<open>"1 2 3"\<close> is
  accepted as a validated record whose name is two spaces.
\<close>

theorem clean_professor_name_leaves_whitespace:
  "clean_professor_name (Some ''  John   Doe  '') = ''John Doe''
   \<and> spec_cleaned ''John Doe''
   \<and> clean_professor_name (Some ''John 1 Doe'') = ''John  Doe''
   \<and> \<not> spec_cleaned ''John  Doe''
   \<and> clean_professor_name (Some ''1 John 2'') = '' John ''
   \<and> \<not> spec_cleaned '' John ''
   \<and> create_professor_entry (Some ''1 2 3'') (RText ''0.0'')
       ''https://polyratings.dev/professor/12ab-cd''
     = Some \<lparr>prof_name = ''  '', prof_rating = Finite 0,
             prof_link = ''https://polyratings.dev/professor/12ab-cd''\<rparr>"
  by (simp add: entry_eval spec_cleaned_def spec_name_char_def)

section \<open>The rating\<close>

lemma round_half_even_nonneg:
  assumes "0 \<le> x"
  shows "0 \<le> round_half_even x"
proof -
  have "0 \<le> \<lfloor>x\<rfloor>"
    using assms by simp
  then show ?thesis
    by (simp add: round_half_even_def Let_def)
qed

lemma round_half_even_le:
  assumes "x \<le> of_int n"
  shows "round_half_even x \<le> n"
proof (cases "\<lfloor>x\<rfloor> = n")
  case True
  have "of_int \<lfloor>x\<rfloor> \<le> x"
    by (rule of_int_floor_le)
  with True assms have "x = of_int n"
    by simp
  then show ?thesis
    by (simp add: round_half_even_def Let_def)
next
  case False
  have "\<lfloor>x\<rfloor> \<le> n"
    using assms by (simp add: floor_le_iff)
  with False have "\<lfloor>x\<rfloor> + 1 \<le> n"
    by simp
  then show ?thesis
    by (simp add: round_half_even_def Let_def)
qed

lemma ilog2_ge1_nonneg: "0 \<le> ilog2_ge1 a"
proof (induction a rule: ilog2_ge1.induct)
  case (1 a)
  show ?case
  proof (cases "a < 2")
    case True
    then show ?thesis
      by (subst ilog2_ge1.simps) simp
  next
    case False
    with 1 have "0 \<le> ilog2_ge1 (a / 2)"
      by simp
    with False show ?thesis
      by (subst ilog2_ge1.simps) simp
  qed
qed

lemma ilog2_ge1_le_2:
  assumes "a \<le> 4"
  shows "ilog2_ge1 a \<le> 2"
proof -
  have small: "ilog2_ge1 b = 0" if "b < 2" for b
    using that by (subst ilog2_ge1.simps) simp
  have mid: "ilog2_ge1 b \<le> 1" if "b \<le> 2" for b
  proof (cases "b < 2")
    case True
    then show ?thesis
      by (simp add: small)
  next
    case False
    have "b / 2 < 2"
      using that by simp
    then have "ilog2_ge1 (b / 2) = 0"
      by (rule small)
    with False show ?thesis
      by (subst ilog2_ge1.simps) simp
  qed
  show ?thesis
  proof (cases "a < 2")
    case True
    then show ?thesis
      by (simp add: small)
  next
    case False
    have "a / 2 \<le> 2"
      using assms by simp
    then have "ilog2_ge1 (a / 2) \<le> 1"
      by (rule mid)
    with False show ?thesis
      by (subst ilog2_ge1.simps) simp
  qed
qed

lemma ilog2_le_2:
  assumes "a \<le> 4"
  shows "ilog2 a \<le> 2"
proof (cases "1 \<le> a")
  case True
  with assms show ?thesis
    by (simp add: ilog2_def ilog2_ge1_le_2)
next
  case False
  have "0 \<le> ilog2_ge1 (1 / a)"
    by (rule ilog2_ge1_nonneg)
  with False show ?thesis
    by (simp add: ilog2_def Let_def)
qed

lemma to_double_range:
  assumes "0 \<le> q" and "q \<le> 4"
  shows "\<exists>r. to_double q = Finite r \<and> 0 \<le> r \<and> r \<le> 4"
proof (cases "q = 0")
  case True
  then show ?thesis
    by (simp add: to_double_def)
next
  case False
  with assms have pos: "0 < q"
    by simp
  define e where "e = max (ilog2 q) (- 1022)"
  define k where "k = nat (52 - e)"
  define v where "v = rat_of_int (round_half_even (q * 2 ^ k)) / 2 ^ k"
  have "e \<le> 2"
    using assms(2) by (simp add: e_def ilog2_le_2)
  then have ulp: "pow2 (e - 52) = 1 / 2 ^ k"
    by (simp add: pow2_def k_def)
  have "q * 2 ^ k \<le> 4 * 2 ^ k"
    using assms(2) by simp
  then have "q * 2 ^ k \<le> rat_of_int (4 * 2 ^ k)"
    by simp
  then have "round_half_even (q * 2 ^ k) \<le> 4 * 2 ^ k"
    by (rule round_half_even_le)
  then have "rat_of_int (round_half_even (q * 2 ^ k)) \<le> rat_of_int (4 * 2 ^ k)"
    by (simp only: of_int_le_iff)
  then have le: "v \<le> 4"
    by (simp add: v_def divide_le_eq)
  have "0 \<le> q * 2 ^ k"
    using assms(1) by simp
  then have "0 \<le> round_half_even (q * 2 ^ k)"
    by (rule round_half_even_nonneg)
  then have ge: "0 \<le> v"
    by (simp add: v_def)
  have "(4::rat) < 2 ^ 1024"
    by simp
  with le have "\<not> pow2 1024 \<le> v"
    by (simp add: pow2_def)
  then have "to_double q = Finite v"
    using pos False ulp by (simp add: to_double_def Let_def e_def [symmetric] v_def)
  with le ge show ?thesis
    by simp
qed

lemma py_round_range:
  assumes "0 \<le> v" and "v \<le> 4"
  shows "\<exists>k r. 0 \<le> k \<and> k \<le> 400 \<and> py_round (Finite v) 2 = to_double (of_int k / 100)
           \<and> py_round (Finite v) 2 = Finite r \<and> 0 \<le> r \<and> r \<le> 4"
proof -
  define k where "k = round_half_even (v * 100)"
  have "0 \<le> v * 100"
    using assms(1) by simp
  then have k0: "0 \<le> k"
    unfolding k_def by (rule round_half_even_nonneg)
  have "v * 100 \<le> rat_of_int 400"
    using assms(2) by simp
  then have k400: "k \<le> 400"
    unfolding k_def by (rule round_half_even_le)
  have r: "py_round (Finite v) 2 = to_double (of_int k / 100)"
    by (simp add: py_round_def k_def)
  have "0 \<le> rat_of_int k / 100"
    using k0 by simp
  moreover have "rat_of_int k / 100 \<le> 4"
    using k400 by simp
  ultimately obtain x where "to_double (of_int k / 100) = Finite x" and "0 \<le> x" and "x \<le> 4"
    using to_double_range by blast
  with k0 k400 r show ?thesis
    by auto
qed

lemma rating_in_range:
  "(float_le MIN_RATING x \<and> float_le x MAX_RATING) = (\<exists>v. x = Finite v \<and> 0 \<le> v \<and> v \<le> 4)"
  by (cases x) (auto simp: MIN_RATING_def MAX_RATING_def)

lemma validate_rating_text:
  "(validate_rating (RText s) = Some y)
     = (\<exists>v. py_float s = Some (Finite v) \<and> 0 \<le> v \<and> v \<le> 4 \<and> y = py_round (Finite v) 2)"
proof (cases "py_float s")
  case None
  then show ?thesis
    by (simp add: validate_rating_def)
next
  case (Some x)
  show ?thesis
  proof (cases "float_le MIN_RATING x \<and> float_le x MAX_RATING")
    case True
    then obtain v where "x = Finite v" and "0 \<le> v" and "v \<le> 4"
      unfolding rating_in_range by blast
    with Some True show ?thesis
      by (auto simp: validate_rating_def)
  next
    case False
    then have "\<not> (\<exists>v. x = Finite v \<and> 0 \<le> v \<and> v \<le> 4)"
      unfolding rating_in_range .
    with Some False show ?thesis
      by (auto simp: validate_rating_def)
  qed
qed

subsection \<open>The characters of an accepted text\<close>

lemma set_dropWhile_cover: "set xs \<subseteq> set (dropWhile P xs) \<union> Collect P"
proof -
  have "set xs = set (takeWhile P xs) \<union> set (dropWhile P xs)"
    by (metis set_append takeWhile_dropWhile_id)
  moreover have "set (takeWhile P xs) \<subseteq> Collect P"
    by (auto dest: set_takeWhileD)
  ultimately show ?thesis
    by auto
qed

lemma float_strip_cover: "set s \<subseteq> set (float_strip s) \<union> Collect float_space"
proof -
  have "set s \<subseteq> set (dropWhile float_space s) \<union> Collect float_space"
    by (rule set_dropWhile_cover)
  moreover have "set (rev (dropWhile float_space s))
      \<subseteq> set (dropWhile float_space (rev (dropWhile float_space s))) \<union> Collect float_space"
    by (rule set_dropWhile_cover)
  ultimately show ?thesis
    by (auto simp: float_strip_def)
qed

lemma split_sign_chars:
  assumes "split_sign s = (neg, r)" and "\<forall>c\<in>set r. float_literal_char c"
  shows "\<forall>c\<in>set s. float_literal_char c"
  using assms by (cases s) (auto simp: float_literal_char_def split: if_splits)

lemma digits_chars:
  assumes "list_all is_digit ds"
  shows "\<forall>c\<in>set ds. float_literal_char c"
  using assms by (auto simp: list_all_iff float_literal_char_def)

lemma exponent_letter_chars: "float_literal_char CHR ''e''" "float_literal_char CHR ''E''"
  by (simp_all add: float_literal_char_def to_lower_def is_upper_def code_def char_of_def bit_iff_odd)

lemma parse_exponent_chars:
  assumes "parse_exponent r = Some e"
  shows "\<forall>c\<in>set r. float_literal_char c"
proof (cases r)
  case Nil
  then show ?thesis by simp
next
  case (Cons c cs)
  obtain neg ds where sign: "split_sign cs = (neg, ds)"
    by (cases "split_sign cs") auto
  from assms Cons have letter: "c = CHR ''e'' \<or> c = CHR ''E''"
    by (simp add: parse_exponent_def split: if_splits)
  with assms Cons sign have ds: "list_all is_digit ds"
    by (simp add: parse_exponent_def split: if_splits)
  from ds have "\<forall>c\<in>set ds. float_literal_char c"
    by (rule digits_chars)
  with sign have "\<forall>c\<in>set cs. float_literal_char c"
    by (rule split_sign_chars)
  moreover from letter have "float_literal_char c"
    using exponent_letter_chars by blast
  ultimately show ?thesis
    using Cons by simp
qed

lemma word_chars:
  assumes "map to_lower r = w" and "set w \<subseteq> set ''aefinty''"
  shows "\<forall>c\<in>set r. float_literal_char c"
proof
  fix c
  assume "c \<in> set r"
  then have "to_lower c \<in> set (map to_lower r)"
    by simp
  with assms have "to_lower c \<in> set ''aefinty''"
    by blast
  then show "float_literal_char c"
    by (simp add: float_literal_char_def)
qed

lemma number_chars:
  assumes "parse_exponent r2 = Some e"
    and "r2 = (if r1 \<noteq> [] \<and> hd r1 = CHR ''.'' then dropWhile is_digit (tl r1) else r1)"
    and "r1 = dropWhile is_digit r"
  shows "\<forall>c\<in>set r. float_literal_char c"
proof -
  have r2: "\<forall>c\<in>set r2. float_literal_char c"
    using assms(1) by (rule parse_exponent_chars)
  have digits: "\<forall>c\<in>set (takeWhile is_digit xs). float_literal_char c" for xs
    by (auto dest: set_takeWhileD simp: float_literal_char_def)
  have r1: "\<forall>c\<in>set r1. float_literal_char c"
  proof (cases "r1 \<noteq> [] \<and> hd r1 = CHR ''.''")
    case True
    then have "r1 = CHR ''.'' # tl r1"
      by (cases r1) auto
    moreover have "tl r1 = takeWhile is_digit (tl r1) @ r2"
      using True assms(2) by simp
    moreover have "float_literal_char CHR ''.''"
      by (simp add: float_literal_char_def)
    ultimately show ?thesis
      using r2 digits [of "tl r1"] by (metis Un_iff set_ConsD set_append)
  next
    case False
    with assms(2) r2 show ?thesis
      by simp
  qed
  have "r = takeWhile is_digit r @ r1"
    by (simp add: assms(3))
  then show ?thesis
    using r1 digits [of r] by (metis Un_iff set_append)
qed

lemma parse_float_body_chars:
  assumes "parse_float_body s = Some x"
  shows "\<forall>c\<in>set s. float_literal_char c"
proof -
  obtain neg r where sign: "split_sign s = (neg, r)"
    by (cases "split_sign s") auto
  have "\<forall>c\<in>set r. float_literal_char c"
  proof (cases "map to_lower r = ''inf'' \<or> map to_lower r = ''infinity''
      \<or> map to_lower r = ''nan''")
    case True
    then consider (inf) "map to_lower r = ''inf''" | (infinity) "map to_lower r = ''infinity''"
      | (nan) "map to_lower r = ''nan''"
      by blast
    then show ?thesis
    proof cases
      case inf
      then show ?thesis by (rule word_chars) simp
    next
      case infinity
      then show ?thesis by (rule word_chars) simp
    next
      case nan
      then show ?thesis by (rule word_chars) simp
    qed
  next
    case False
    with assms sign obtain e where
      "parse_exponent
         (if dropWhile is_digit r \<noteq> [] \<and> hd (dropWhile is_digit r) = CHR ''.''
          then dropWhile is_digit (tl (dropWhile is_digit r))
          else dropWhile is_digit r) = Some e"
      by (auto simp: parse_float_body_def Let_def split: if_splits option.splits)
    then show ?thesis
      by (rule number_chars) simp_all
  qed
  with sign show ?thesis
    by (rule split_sign_chars)
qed

lemma py_float_chars:
  assumes "py_float s = Some x"
  shows "list_all float_literal_char s"
proof -
  let ?t = "filter (\<lambda>c. c \<noteq> CHR ''_'') s"
  from assms have "parse_float_body (float_strip ?t) = Some x"
    by (simp add: py_float_def split: if_splits)
  then have body: "\<forall>c\<in>set (float_strip ?t). float_literal_char c"
    by (rule parse_float_body_chars)
  have space: "\<forall>c\<in>Collect float_space. float_literal_char c"
    by (simp add: float_literal_char_def)
  have "\<forall>c\<in>set ?t. float_literal_char c"
    using float_strip_cover [of ?t] body space by blast
  moreover have "float_literal_char CHR ''_''"
    by (simp add: float_literal_char_def)
  ultimately have "\<forall>c\<in>set s. float_literal_char c"
    by auto
  then show ?thesis
    by (simp add: list_all_iff)
qed

subsection \<open>The rating 3.67\<close>

lemma ilog2_367: "ilog2 (367 / 100) = 1"
proof -
  have "ilog2_ge1 (367 / 200) = 0"
    by (subst ilog2_ge1.simps) simp
  then have "ilog2_ge1 (367 / 100) = 1"
    by (subst ilog2_ge1.simps) simp
  then show ?thesis
    by (simp add: ilog2_def)
qed

lemma to_double_367:
  "to_double (367 / 100) = Finite (2066026329056215 / 562949953421312)"
proof -
  have e: "max (ilog2 (367 / 100)) (- 1022) = 1"
    by (simp add: ilog2_367)
  have "\<lfloor>(206602632905621504::rat) / 25\<rfloor> = 8264105316224860"
    by (rule floor_unique) simp_all
  then have "round_half_even (206602632905621504 / 25) = 8264105316224860"
    by (simp add: round_half_even_def Let_def)
  with e show ?thesis
    by (simp add: to_double_def Let_def pow2_def)
qed

lemma py_round_367:
  "py_round (Finite (2066026329056215 / 562949953421312)) 2
     = Finite (2066026329056215 / 562949953421312)"
proof -
  have "\<lfloor>(51650658226405375::rat) / 140737488355328\<rfloor> = 366"
    by (rule floor_unique) simp_all
  then have "round_half_even (51650658226405375 / 140737488355328) = 367"
    by (simp add: round_half_even_def Let_def)
  then show ?thesis
    by (simp add: py_round_def to_double_367)
qed

lemmas float_eval =
  py_float_def parse_float_body_def float_strip_def float_space_def code_def
  is_digit_def to_lower_def is_upper_def parse_exponent_def Let_def digits_value_def pow10_def

lemma py_float_367:
  "py_float ''3.67'' = Some (Finite (2066026329056215 / 562949953421312))"
  by (simp add: float_eval to_double_367)

lemma py_float_reviews: "py_float ''3.67 (120 reviews)'' = None"
  by (simp add: float_eval)

lemma search_number_reviews: "search_number (strip ''3.67 (120 reviews)'') = Some ''3.67''"
  by (simp add: search_number_def strip_def is_space_def is_digit_def code_def Let_def)

lemma extract_rating_from_text_reviews:
  "extract_rating_from_text ''3.67 (120 reviews)''
     = Some (Finite (2066026329056215 / 562949953421312))"
  by (simp add: extract_rating_from_text_def search_number_reviews py_float_367
      MIN_RATING_def MAX_RATING_def py_round_367)

lemma validate_rating_367:
  "validate_rating (RText ''3.67'') = Some (Finite (2066026329056215 / 562949953421312))"
  by (simp add: validate_rating_def py_float_367 MIN_RATING_def MAX_RATING_def py_round_367)

lemma validate_rating_reviews: "validate_rating (RText ''3.67 (120 reviews)'') = None"
  by (simp add: validate_rating_def py_float_reviews)

lemma create_professor_entry_rating:
  assumes "create_professor_entry name rating link = Some entry"
  shows "validate_rating rating = Some (prof_rating entry)"
  using assms
  by (auto simp: create_professor_entry_def create_professor_entry_steps_def Let_def
      split: option.splits if_splits)

lemma rejected_at_rating_step:
  "(create_professor_entry_steps name rating link = Inl InvalidRating)
   = (clean_professor_name name \<noteq> [] \<and> validate_rating rating = None)"
  by (auto simp: create_professor_entry_steps_def Let_def split: option.splits)

text \<open>
  Claim C1, as stated, fails on the code. \<open>validate_rating\<close> hands the whole rating text
  to \<open>float\<close>, which raises on \<open>"3.67 (120 reviews)"\<close>: the rating is rejected and the
  candidate is dropped at the rating step, where the claim says it yields the rating 3.67.
\<close>

theorem rating_with_trailing_text_counterexample:
  "validate_rating (RText ''3.67 (120 reviews)'') = None
   \<and> create_professor_entry_steps (Some ''John Doe'') (RText ''3.67 (120 reviews)'')
       ''https://polyratings.dev/professor/12ab-cd''
     = Inl InvalidRating"
  by (simp add: validate_rating_reviews create_professor_entry_steps_def
      clean_professor_name_def strip_def is_space_def name_char_def code_def
      is_upper_def is_lower_def)

text \<open>
  Claim C1, amended. For every rating text the Validator converts the whole text with
  \<open>float\<close>; no number is extracted from inside a longer text. The text is accepted exactly
  when \<open>float\<close> returns a finite value in \<open>[0.0, 4.0]\<close>, and the rating is that value
  rounded to 2 decimal places. An accepted text is made of float-literal characters only,
  and the rating is the float nearest to some \<open>k / 100\<close> with \<open>0 \<le> k \<le> 400\<close>, itself
  in \<open>[0.0, 4.0]\<close>. A record the Validator creates carries the rating \<open>validate_rating\<close>
  returned, and the candidate is rejected at the rating step exactly when its name cleaned
  to a non-empty string and \<open>validate_rating\<close> rejected the text.
\<close>

theorem validate_rating_whole_text:
  "((validate_rating (RText s) = Some y)
      = (\<exists>v. py_float s = Some (Finite v) \<and> 0 \<le> v \<and> v \<le> 4 \<and> y = py_round (Finite v) 2))
   \<and> (validate_rating (RText s) = Some y \<longrightarrow>
        list_all float_literal_char s
        \<and> (\<exists>k. 0 \<le> k \<and> k \<le> 400 \<and> y = to_double (of_int k / 100))
        \<and> (\<exists>r. y = Finite r \<and> 0 \<le> r \<and> r \<le> 4))
   \<and> (create_professor_entry name (RText s) link = Some entry \<longrightarrow>
        validate_rating (RText s) = Some (prof_rating entry))
   \<and> ((create_professor_entry_steps name (RText s) link = Inl InvalidRating)
        = (clean_professor_name name \<noteq> [] \<and> validate_rating (RText s) = None))"
proof -
  have accepted: "list_all float_literal_char s
        \<and> (\<exists>k. 0 \<le> k \<and> k \<le> 400 \<and> y = to_double (of_int k / 100))
        \<and> (\<exists>r. y = Finite r \<and> 0 \<le> r \<and> r \<le> 4)"
    if "validate_rating (RText s) = Some y"
  proof -
    from that obtain v where v: "py_float s = Some (Finite v)" "0 \<le> v" "v \<le> 4"
        and y: "y = py_round (Finite v) 2"
      unfolding validate_rating_text by blast
    from v(1) have "list_all float_literal_char s"
      by (rule py_float_chars)
    moreover from v(2,3) obtain k r where "0 \<le> k" "k \<le> 400"
        "py_round (Finite v) 2 = to_double (of_int k / 100)"
        "py_round (Finite v) 2 = Finite r" "0 \<le> r" "r \<le> 4"
      using py_round_range by blast
    ultimately show ?thesis
      unfolding y by blast
  qed
  have entry: "create_professor_entry name (RText s) link = Some entry \<longrightarrow>
        validate_rating (RText s) = Some (prof_rating entry)"
    using create_professor_entry_rating [of name "RText s" link entry] by blast
  show ?thesis
    using validate_rating_text [of s y] accepted entry
      rejected_at_rating_step [of name "RText s" link]
    by blast
qed

theorem validate_rating_whole_text_witness:
  "validate_rating (RText ''3.67'') = Some (Finite (2066026329056215 / 562949953421312))
   \<and> list_all float_literal_char ''3.67''
   \<and> (\<exists>k. 0 \<le> k \<and> k \<le> 400
          \<and> Finite (2066026329056215 / 562949953421312) = to_double (of_int k / 100))"
  using validate_rating_whole_text
    [of "''3.67''" "Finite (2066026329056215 / 562949953421312)"]
    validate_rating_367
  by blast

section \<open>Saving and loading\<close>

lemma save_invalid:
  "\<not> validate_professors_list professors \<Longrightarrow>
   save_professors_json io professors path fs = (False, fs)"
  by (simp add: save_professors_json_def)

lemma save_open_fails:
  "save_professors_json OpenFails professors path fs = (False, fs)"
  by (simp add: save_professors_json_def)

lemma save_reports_failure:
  "fst (save_professors_json io professors path fs)
   = (validate_professors_list professors \<and> io = WriteOk)"
  by (cases io) (simp_all add: save_professors_json_def)

lemma save_other_files:
  "p \<noteq> path \<Longrightarrow> snd (save_professors_json io professors path fs) p = fs p"
  by (cases io) (simp_all add: save_professors_json_def)

lemmas professor_eval =
  validate_professors_list_def validate_professor_data_def name_pattern_def link_pattern_def
  re_anchored_def class_plus_def link_prefix_def token_char_def name_char_def is_upper_def
  is_lower_def is_space_def is_digit_def code_def newline_def MIN_NAME_LENGTH_def
  MAX_NAME_LENGTH_def MIN_RATING_def MAX_RATING_def

text \<open>
  Claim C4, as stated, fails on the code. A valid one-record sequence is saved over an
  existing artifact and the write fails after \<open>open\<close>: \<open>save\<close> reports failure, and the
  artifact no longer holds what it held.
\<close>

theorem save_write_failure_counterexample:
  "save_professors_json WriteFails
     [\<lparr>prof_name = ''Doe, John'', prof_rating = Finite 0,
       prof_link = ''https://polyratings.dev/professor/12ab-cd''\<rparr>]
     ''professors.json''
     (Map.empty(''professors.json'' \<mapsto>
        Document [\<lparr>prof_name = ''Roe, Jane'', prof_rating = Finite 4,
                   prof_link = ''https://polyratings.dev/professor/0f''\<rparr>]))
   = (False, Map.empty(''professors.json'' \<mapsto> Torn))"
  by (simp add: save_professors_json_def professor_eval)

text \<open>
  Claim C4, amended. \<open>save\<close> validates the whole sequence against the per-record schema
  and the non-empty constraint, and reports success exactly when the sequence is valid and
  the write succeeds. On a validation failure, in particular for the empty sequence, and
  when the artifact cannot be opened, the file system is unchanged; a failure after the
  artifact was opened leaves it torn; no other file is touched in any case.
\<close>

theorem save_failure_cases:
  "(fst (save_professors_json io professors path fs)
      = (validate_professors_list professors \<and> io = WriteOk))
   \<and> (validate_professors_list professors
        = (professors \<noteq> [] \<and> list_all validate_professor_data professors))
   \<and> (\<not> validate_professors_list professors \<or> io = OpenFails
        \<longrightarrow> save_professors_json io professors path fs = (False, fs))
   \<and> save_professors_json io [] path fs = (False, fs)
   \<and> (validate_professors_list professors \<and> io = WriteFails
        \<longrightarrow> save_professors_json io professors path fs = (False, fs(path \<mapsto> Torn)))
   \<and> (\<forall>p. p \<noteq> path \<longrightarrow> snd (save_professors_json io professors path fs) p = fs p)"
proof -
  have empty: "save_professors_json io [] path fs = (False, fs)"
    by (simp add: save_professors_json_def validate_professors_list_def)
  have unchanged: "\<not> validate_professors_list professors \<or> io = OpenFails
      \<longrightarrow> save_professors_json io professors path fs = (False, fs)"
    using save_invalid [of professors io path fs] save_open_fails [of professors path fs]
    by blast
  have torn: "validate_professors_list professors \<and> io = WriteFails
      \<longrightarrow> save_professors_json io professors path fs = (False, fs(path \<mapsto> Torn))"
    by (simp add: save_professors_json_def)
  show ?thesis
    using save_reports_failure [of io professors path fs] empty unchanged torn
      save_other_files [of _ path io professors fs]
    by (simp add: validate_professors_list_def)
qed

theorem save_failure_cases_witness:
  "save_professors_json OpenFails
     [\<lparr>prof_name = ''Doe, John'', prof_rating = Finite 0,
       prof_link = ''https://polyratings.dev/professor/12ab-cd''\<rparr>]
     ''professors.json'' (Map.empty(''professors.json'' \<mapsto> Document []))
   = (False, Map.empty(''professors.json'' \<mapsto> Document []))
   \<and> snd (save_professors_json WriteOk [] ''professors.json'' Map.empty) ''other.json'' = None"
proof -
  have "save_professors_json OpenFails
     [\<lparr>prof_name = ''Doe, John'', prof_rating = Finite 0,
       prof_link = ''https://polyratings.dev/professor/12ab-cd''\<rparr>]
     ''professors.json'' (Map.empty(''professors.json'' \<mapsto> Document []))
   = (False, Map.empty(''professors.json'' \<mapsto> Document []))"
    using save_failure_cases
      [of OpenFails "[\<lparr>prof_name = ''Doe, John'', prof_rating = Finite 0,
         prof_link = ''https://polyratings.dev/professor/12ab-cd''\<rparr>]"
        "''professors.json''" "Map.empty(''professors.json'' \<mapsto> Document [])"]
    by simp
  moreover have
    "snd (save_professors_json WriteOk [] ''professors.json'' Map.empty) ''other.json'' = None"
    using save_failure_cases [of WriteOk "[]" "''professors.json''" Map.empty]
    by simp
  ultimately show ?thesis by simp
qed

text \<open>
  Claim C5. For every valid non-empty sequence of professor entries, saving it (the write
  succeeding) and then loading the artifact succeeds and returns the same sequence, hence
  the same set of records.
\<close>

theorem save_then_load:
  "validate_professors_list R \<Longrightarrow>
   save_professors_json WriteOk R path fs = (ok, fs') \<Longrightarrow>
   ok \<and> load_professors_json path fs' = Some R
   \<and> set (the (load_professors_json path fs')) = set R"
  by (auto simp: save_professors_json_def load_professors_json_def)

theorem save_then_load_witness:
  "validate_professors_list
     [\<lparr>prof_name = ''Doe, John'', prof_rating = Finite 0,
       prof_link = ''https://polyratings.dev/professor/12ab-cd''\<rparr>]
   \<and> load_professors_json ''professors.json''
       (snd (save_professors_json WriteOk
          [\<lparr>prof_name = ''Doe, John'', prof_rating = Finite 0,
            prof_link = ''https://polyratings.dev/professor/12ab-cd''\<rparr>]
          ''professors.json'' Map.empty))
     = Some [\<lparr>prof_name = ''Doe, John'', prof_rating = Finite 0,
              prof_link = ''https://polyratings.dev/professor/12ab-cd''\<rparr>]"
proof -
  let ?R = "[\<lparr>prof_name = ''Doe, John'', prof_rating = Finite 0,
       prof_link = ''https://polyratings.dev/professor/12ab-cd''\<rparr>]"
  have valid: "validate_professors_list ?R"
    by (simp add: professor_eval)
  have "save_professors_json WriteOk ?R ''professors.json'' Map.empty
      = (fst (save_professors_json WriteOk ?R ''professors.json'' Map.empty),
         snd (save_professors_json WriteOk ?R ''professors.json'' Map.empty))"
    by simp
  from save_then_load [OF valid this] valid show ?thesis
    by simp
qed

section \<open>Deduplication\<close>

lemma dedup_loop_first_seen:
  "dedup_loop ps seen unique = unique @ first_seen seen ps"
proof (induction ps arbitrary: seen unique)
  case Nil
  show ?case by simp
next
  case (Cons p ps)
  obtain name rating link where p: "p = (name, rating, link)"
    by (cases p) auto
  show ?case
    by (simp add: p Cons.IH cand_link_def)
qed

lemma deduplicate_first_seen:
  "deduplicate_professors ps = first_seen {} ps"
  by (simp add: deduplicate_professors_def dedup_loop_first_seen)

lemma first_seen_subseq: "subseq (first_seen seen ps) ps"
  by (induction ps arbitrary: seen) auto

lemma first_seen_links:
  "cand_link ` set (first_seen seen ps) = cand_link ` set ps - seen"
  by (induction ps arbitrary: seen) auto

lemma first_seen_fresh:
  assumes "p \<in> set (first_seen seen ps)"
  shows "cand_link p \<notin> seen"
proof -
  from assms have "cand_link p \<in> cand_link ` set (first_seen seen ps)"
    by (rule imageI)
  then show ?thesis
    by (simp add: first_seen_links)
qed

lemma first_seen_distinct: "distinct (map cand_link (first_seen seen ps))"
proof (induction ps arbitrary: seen)
  case Nil
  show ?case by simp
next
  case (Cons q ps)
  have "cand_link q \<notin> cand_link ` set (first_seen (insert (cand_link q) seen) ps)"
    by (simp add: first_seen_links)
  with Cons.IH show ?case by simp
qed

lemma first_seen_find:
  "p \<in> set (first_seen seen ps) \<Longrightarrow> find (\<lambda>q. cand_link q = cand_link p) ps = Some p"
proof (induction ps arbitrary: seen)
  case Nil
  then show ?case by simp
next
  case (Cons q ps)
  show ?case
  proof (cases "cand_link q \<notin> seen")
    case fresh: True
    show ?thesis
    proof (cases "p = q")
      case True
      then show ?thesis by simp
    next
      case False
      with Cons.prems fresh
      have mem: "p \<in> set (first_seen (insert (cand_link q) seen) ps)"
        by simp
      from first_seen_fresh [OF mem] have "cand_link q \<noteq> cand_link p"
        by auto
      with Cons.IH [OF mem] show ?thesis by simp
    qed
  next
    case old: False
    with Cons.prems have mem: "p \<in> set (first_seen seen ps)"
      by simp
    from first_seen_fresh [OF mem] old have "cand_link q \<noteq> cand_link p"
      by auto
    with Cons.IH [OF mem] show ?thesis by simp
  qed
qed

text \<open>
  Claim C10. For every input list of \<open>(name, rating, link)\<close> tuples,
  \<open>deduplicate_professors\<close> returns a subsequence of the input in which every link occurs
  exactly once (the links of the result are distinct and are the links of the input), and
  the record kept for a link is the first record of the input carrying that link.
\<close>

theorem deduplicate_professors_first_wins:
  "subseq (deduplicate_professors ps) ps
   \<and> distinct (map cand_link (deduplicate_professors ps))
   \<and> set (map cand_link (deduplicate_professors ps)) = set (map cand_link ps)
   \<and> (\<forall>p \<in> set (deduplicate_professors ps).
         find (\<lambda>q. cand_link q = cand_link p) ps = Some p)"
proof -
  have "set (map cand_link (first_seen {} ps)) = set (map cand_link ps)"
    by (simp add: first_seen_links)
  then show ?thesis
    by (simp add: deduplicate_first_seen first_seen_subseq first_seen_distinct
        first_seen_find)
qed

theorem deduplicate_professors_first_wins_witness:
  "deduplicate_professors
     [(Some ''Doe, John'', Some ''3.5'', ''https://polyratings.dev/professor/a1''),
      (Some ''Roe, Jane'', Some ''2.0'', ''https://polyratings.dev/professor/b2''),
      (Some ''DOE, JOHN'', Some ''1.0'', ''https://polyratings.dev/professor/a1'')]
   = [(Some ''Doe, John'', Some ''3.5'', ''https://polyratings.dev/professor/a1''),
      (Some ''Roe, Jane'', Some ''2.0'', ''https://polyratings.dev/professor/b2'')]
   \<and> find (\<lambda>q. cand_link q = ''https://polyratings.dev/professor/a1'')
         [(Some ''Doe, John'', Some ''3.5'', ''https://polyratings.dev/professor/a1''),
          (Some ''Roe, Jane'', Some ''2.0'', ''https://polyratings.dev/professor/b2''),
          (Some ''DOE, JOHN'', Some ''1.0'', ''https://polyratings.dev/professor/a1'')]
       = Some (Some ''Doe, John'', Some ''3.5'', ''https://polyratings.dev/professor/a1'')"
  using deduplicate_professors_first_wins
    [of "[(Some ''Doe, John'', Some ''3.5'', ''https://polyratings.dev/professor/a1''),
          (Some ''Roe, Jane'', Some ''2.0'', ''https://polyratings.dev/professor/b2''),
          (Some ''DOE, JOHN'', Some ''1.0'', ''https://polyratings.dev/professor/a1'')]"]
  by (simp add: deduplicate_professors_def cand_link_def)

section \<open>The collector\<close>










section \<open>The pipeline\<close>

lemma create_professor_entry_link:
  "create_professor_entry name rating link = Some entry \<Longrightarrow> prof_link entry = link"
  by (auto simp: create_professor_entry_def create_professor_entry_steps_def
      validate_professor_link_def Let_def split: option.splits if_splits)

lemma validate_all_links:
  "subseq (map prof_link (validate_all candidates)) (map cand_link candidates)"
proof (induction candidates)
  case Nil
  show ?case by simp
next
  case (Cons c candidates)
  obtain name rating link where c: "c = (name, rating, link)"
    by (cases c) auto
  show ?case
  proof (cases "create_professor_entry name (rating_arg rating) link")
    case None
    with Cons.IH show ?thesis
      by (simp add: c cand_link_def list_emb_Cons)
  next
    case (Some entry)
    then have "prof_link entry = link"
      by (rule create_professor_entry_link)
    with Some Cons.IH show ?thesis
      by (simp add: c cand_link_def)
  qed
qed

lemma pipeline_distinct:
  "distinct (map prof_link (validate_all (deduplicate_professors professors_raw)))"
proof -
  have "distinct (map cand_link (deduplicate_professors professors_raw))"
    by (simp add: deduplicate_first_seen first_seen_distinct)
  moreover have "map prof_link (validate_all (deduplicate_professors professors_raw))
      \<in> set (subseqs (map cand_link (deduplicate_professors professors_raw)))"
    by (simp add: validate_all_links)
  ultimately show ?thesis
    by (rule subseqs_distinctD [rotated])
qed

text \<open>
  Claim C3. In every run of the pipeline the records handed to the Store have pairwise
  different links. So when the run reports success the artifact is a document without
  duplicate links, and whenever the artifact holds a document after a run, either the run
  left the file system as it was or the document has no duplicate links.
\<close>

theorem main_persists_distinct_links:
  "main io professors_raw fs = (ok, fs') \<Longrightarrow>
   distinct (map prof_link (validate_all (deduplicate_professors professors_raw)))
   \<and> (ok \<longrightarrow> (\<exists>ps. fs' OUTPUT_PATH = Some (Document ps) \<and> distinct (map prof_link ps)))
   \<and> (\<forall>ps. fs' OUTPUT_PATH = Some (Document ps) \<longrightarrow>
         fs' = fs \<or> distinct (map prof_link ps))"
proof -
  let ?ps = "validate_all (deduplicate_professors professors_raw)"
  assume run: "main io professors_raw fs = (ok, fs')"
  have d: "distinct (map prof_link ?ps)"
    by (rule pipeline_distinct)
  from run have save: "save_professors_json io ?ps OUTPUT_PATH fs = (ok, fs')"
    by (simp add: main_def Let_def)
  have "ok \<longrightarrow> (\<exists>ps. fs' OUTPUT_PATH = Some (Document ps) \<and> distinct (map prof_link ps))"
    using save d by (cases io) (auto simp: save_professors_json_def split: if_splits)
  moreover have "\<forall>ps. fs' OUTPUT_PATH = Some (Document ps) \<longrightarrow>
         fs' = fs \<or> distinct (map prof_link ps)"
    using save d by (cases io) (auto simp: save_professors_json_def split: if_splits)
  ultimately show ?thesis
    using d by simp
qed

theorem main_persists_distinct_links_witness:
  "main WriteOk
     [(Some ''Doe, John'', Some ''0.0'', ''https://polyratings.dev/professor/0f''),
      (Some ''DOE, JOHN'', Some ''0.0'', ''https://polyratings.dev/professor/0f'')]
     Map.empty
   = (True, Map.empty(OUTPUT_PATH \<mapsto>
        Document [\<lparr>prof_name = ''Doe, John'', prof_rating = Finite 0,
                   prof_link = ''https://polyratings.dev/professor/0f''\<rparr>]))
   \<and> distinct (map prof_link
       [\<lparr>prof_name = ''Doe, John'', prof_rating = Finite 0,
         prof_link = ''https://polyratings.dev/professor/0f''\<rparr>])"
proof -
  have run: "main WriteOk
     [(Some ''Doe, John'', Some ''0.0'', ''https://polyratings.dev/professor/0f''),
      (Some ''DOE, JOHN'', Some ''0.0'', ''https://polyratings.dev/professor/0f'')]
     Map.empty
   = (True, Map.empty(OUTPUT_PATH \<mapsto>
        Document [\<lparr>prof_name = ''Doe, John'', prof_rating = Finite 0,
                   prof_link = ''https://polyratings.dev/professor/0f''\<rparr>]))"
    by (simp add: main_def deduplicate_professors_def save_professors_json_def
        validate_professors_list_def entry_eval)
  from main_persists_distinct_links [OF run] run show ?thesis
    by simp
qed

end
